theory Spec2Isabelle
  imports Main "HOL-Library.Word"
begin

section \<open>JavaScript strings\<close>

text \<open>
  A JavaScript string is a sequence of 16-bit code units. Literals of the source are
  ASCII; \<open>js\<close> turns an Isabelle string literal into the code units of the JavaScript
  literal with the same characters.
\<close>

type_synonym jsstring = "16 word list"

definition js :: "string \<Rightarrow> jsstring" where
  "js s = map (\<lambda>c. word_of_nat (of_char c)) s"

text \<open>
  The decimal digits of a natural number: what JavaScript's number-to-string conversion
  gives for a non-negative integer such as the default port 3978.
\<close>

fun decimal :: "nat \<Rightarrow> jsstring" where
  "decimal n =
     (if n < 10 then [word_of_nat (48 + n)]
      else decimal (n div 10) @ [word_of_nat (48 + n mod 10)])"

section \<open>Errors and effects\<close>

text \<open>
  A value thrown by the program: the \<open>URIError\<close> of \<open>encodeURIComponent\<close> and
  \<open>decodeURIComponent\<close>, the \<open>TypeError\<close> of a property read on \<open>undefined\<close>, or
  the error object of the payment provider, which the callbacks rethrow.
\<close>

datatype provider_error = ProviderFailure (response: jsstring)

datatype js_error = URIError | TypeError | ProviderError provider_error

section \<open>encodeURIComponent and decodeURIComponent\<close>

text \<open>
  The two built-in functions of the language, after the Encode and Decode operations of
  the ECMAScript specification. \<open>encodeURIComponent\<close> keeps letters, digits and
  \<open>- _ . ! ~ * ' ( )\<close>, and writes every other code point as the \<open>%XX\<close> escapes of its
  UTF-8 octets; a lone surrogate throws \<open>URIError\<close>. \<open>decodeURIComponent\<close> reads the
  escapes back; an incomplete escape, or octets that are not the UTF-8 encoding of a
  code point, throw \<open>URIError\<close>.
\<close>

definition uriUnescaped :: "16 word \<Rightarrow> bool" where
  "uriUnescaped c \<longleftrightarrow>
     (0x41 \<le> c \<and> c \<le> 0x5A) \<or> (0x61 \<le> c \<and> c \<le> 0x7A) \<or> (0x30 \<le> c \<and> c \<le> 0x39) \<or>
     c \<in> set (js ''-_.!~*()'') \<or> c = 0x27"

definition hexDigit :: "nat \<Rightarrow> 16 word" where
  "hexDigit n = (if n < 10 then word_of_nat (48 + n) else word_of_nat (55 + n))"

definition percent :: "nat \<Rightarrow> jsstring" where
  "percent b = [0x25, hexDigit (b div 16), hexDigit (b mod 16)]"

definition utf8_octets :: "nat \<Rightarrow> nat list" where
  "utf8_octets v =
     (if v < 0x80 then [v]
      else if v < 0x800 then [0xC0 + v div 64, 0x80 + v mod 64]
      else if v < 0x10000 then [0xE0 + v div 4096, 0x80 + (v div 64) mod 64, 0x80 + v mod 64]
      else [0xF0 + v div 262144, 0x80 + (v div 4096) mod 64, 0x80 + (v div 64) mod 64,
            0x80 + v mod 64])"

definition prepend :: "jsstring \<Rightarrow> js_error + jsstring \<Rightarrow> js_error + jsstring" where
  "prepend p r = (case r of Inl e \<Rightarrow> Inl e | Inr s \<Rightarrow> Inr (p @ s))"

definition escape_octets :: "nat list \<Rightarrow> jsstring" where
  "escape_octets bs = concat (map percent bs)"

fun encodeURIComponent :: "jsstring \<Rightarrow> js_error + jsstring" where
  "encodeURIComponent [] = Inr []"
| "encodeURIComponent (c # cs) =
     (if uriUnescaped c then prepend [c] (encodeURIComponent cs)
      else if 0xDC00 \<le> c \<and> c \<le> 0xDFFF then Inl URIError
      else if c < 0xD800 \<or> 0xDBFF < c then
        prepend (escape_octets (utf8_octets (unat c))) (encodeURIComponent cs)
      else
        (case cs of
           [] \<Rightarrow> Inl URIError
         | d # ds \<Rightarrow>
             if d < 0xDC00 \<or> 0xDFFF < d then Inl URIError
             else prepend
                    (escape_octets (utf8_octets
                       ((unat c - 0xD800) * 0x400 + (unat d - 0xDC00) + 0x10000)))
                    (encodeURIComponent ds)))"

definition hexValue :: "16 word \<Rightarrow> nat option" where
  "hexValue c =
     (if 0x30 \<le> c \<and> c \<le> 0x39 then Some (unat c - 0x30)
      else if 0x41 \<le> c \<and> c \<le> 0x46 then Some (unat c - 0x37)
      else if 0x61 \<le> c \<and> c \<le> 0x66 then Some (unat c - 0x57)
      else None)"

fun read_escape :: "jsstring \<Rightarrow> (nat \<times> jsstring) option" where
  "read_escape (p # h1 # h2 # rest) =
     (if p = 0x25 then
        (case (hexValue h1, hexValue h2) of
           (Some a, Some b) \<Rightarrow> Some (16 * a + b, rest)
         | _ \<Rightarrow> None)
      else None)"
| "read_escape _ = None"

fun read_continuation :: "nat \<Rightarrow> jsstring \<Rightarrow> (nat list \<times> jsstring) option" where
  "read_continuation 0 s = Some ([], s)"
| "read_continuation (Suc j) s =
     (case read_escape s of
        None \<Rightarrow> None
      | Some (b, rest) \<Rightarrow>
          if b div 64 = 2 then
            (case read_continuation j rest of
               None \<Rightarrow> None
             | Some (bs, rest') \<Rightarrow> Some (b # bs, rest'))
          else None)"

definition utf8_length :: "nat \<Rightarrow> nat" where
  "utf8_length b = (if b < 0xE0 then 2 else if b < 0xF0 then 3 else 4)"

definition utf8_code_point :: "nat \<Rightarrow> nat list \<Rightarrow> nat option" where
  "utf8_code_point b bs =
     (case bs of
        [b1] \<Rightarrow>
          (let v = (b - 0xC0) * 64 + (b1 - 0x80)
           in if 0x80 \<le> v then Some v else None)
      | [b1, b2] \<Rightarrow>
          (let v = (b - 0xE0) * 4096 + (b1 - 0x80) * 64 + (b2 - 0x80)
           in if 0x800 \<le> v \<and> (v < 0xD800 \<or> 0xDFFF < v) then Some v else None)
      | [b1, b2, b3] \<Rightarrow>
          (let v = (b - 0xF0) * 262144 + (b1 - 0x80) * 4096 + (b2 - 0x80) * 64 + (b3 - 0x80)
           in if 0x10000 \<le> v \<and> v \<le> 0x10FFFF then Some v else None)
      | _ \<Rightarrow> None)"

definition code_units :: "nat \<Rightarrow> jsstring" where
  "code_units v =
     (if v < 0x10000 then [word_of_nat v]
      else [word_of_nat ((v - 0x10000) div 0x400 + 0xD800),
            word_of_nat ((v - 0x10000) mod 0x400 + 0xDC00)])"

lemma read_escape_length: "read_escape s = Some (b, rest) \<Longrightarrow> length rest < length s"
  by (induction s rule: read_escape.induct) (auto split: if_splits option.splits)

lemma read_continuation_length:
  "read_continuation j s = Some (bs, rest) \<Longrightarrow> length rest \<le> length s"
proof (induction j arbitrary: s bs rest)
  case 0
  then show ?case by simp
next
  case (Suc j)
  then show ?case
    by (fastforce split: option.splits if_splits dest: read_escape_length)
qed

function decodeURIComponent :: "jsstring \<Rightarrow> js_error + jsstring" where
  "decodeURIComponent [] = Inr []"
| "decodeURIComponent (c # cs) =
     (if c \<noteq> 0x25 then prepend [c] (decodeURIComponent cs)
      else
        (case read_escape (c # cs) of
           None \<Rightarrow> Inl URIError
         | Some (b, rest) \<Rightarrow>
             if b < 0x80 then prepend [word_of_nat b] (decodeURIComponent rest)
             else if b < 0xC0 \<or> 0xF8 \<le> b then Inl URIError
             else
               (case read_continuation (utf8_length b - 1) rest of
                  None \<Rightarrow> Inl URIError
                | Some (bs, rest') \<Rightarrow>
                    (case utf8_code_point b bs of
                       None \<Rightarrow> Inl URIError
                     | Some v \<Rightarrow> prepend (code_units v) (decodeURIComponent rest')))))"
  by pat_completeness auto
termination
proof (relation "measure length")
  show "wf (measure length)" by simp
next
  fix c :: "16 word" and cs
  show "(cs, c # cs) \<in> measure length" by simp
next
  fix c :: "16 word" and cs x2 x y
  assume "read_escape (c # cs) = Some x2" "(x, y) = x2"
  then show "(y, c # cs) \<in> measure length"
    using read_escape_length [of "c # cs" x y] by simp
next
  fix c :: "16 word" and cs x2 x y x2a xa ya x2b
  assume "read_escape (c # cs) = Some x2" "(x, y) = x2"
    "read_continuation (utf8_length x - 1) y = Some x2a" "(xa, ya) = x2a"
  then show "(ya, c # cs) \<in> measure length"
    using read_escape_length [of "c # cs" x y]
      read_continuation_length [of "utf8_length x - 1" y xa ya] by simp
qed

section \<open>Payment request builder (app.js, createPaymentJson and executePaymentJson)\<close>

record payer =
  payment_method :: jsstring

record redirect_urls =
  return_url :: jsstring
  cancel_url :: jsstring

record item =
  name :: jsstring
  sku :: jsstring
  price :: jsstring
  currency :: jsstring
  quantity :: nat

record item_list =
  items :: "item list"

record amount =
  currency :: jsstring
  total :: jsstring

record transaction =
  item_list :: item_list
  amount :: amount
  description :: jsstring

record create_request =
  intent :: jsstring
  payer :: payer
  redirect_urls :: redirect_urls
  transactions :: "transaction list"

text \<open>The transaction of the execute request carries the amount only.\<close>

record execute_transaction =
  amount :: amount

text \<open>
  \<open>payer_id\<close> is \<open>parameters.PayerID\<close>, which is \<open>undefined\<close> (\<open>None\<close>) when the
  callback has no such parameter.
\<close>

record execute_request =
  payer_id :: "jsstring option"
  transactions :: "execute_transaction list"

definition createPaymentJson :: "jsstring \<Rightarrow> jsstring \<Rightarrow> create_request" where
  "createPaymentJson returnUrl cancelUrl =
     \<lparr> intent = js ''sale'',
       payer = \<lparr> payment_method = js ''paypal'' \<rparr>,
       redirect_urls = \<lparr> return_url = returnUrl, cancel_url = cancelUrl \<rparr>,
       transactions =
         [\<lparr> item_list =
              \<lparr> items =
                  [\<lparr> name = js ''Fine'',
                     sku = js ''ParkingFine'',
                     price = js ''1.00'',
                     currency = js ''USD'',
                     quantity = 1 \<rparr>] \<rparr>,
            amount = \<lparr> currency = js ''USD'', total = js ''1.00'' \<rparr>,
            description = js ''This is your fine. Please pay it :3'' \<rparr>] \<rparr>"

definition executePaymentJson :: "jsstring option \<Rightarrow> execute_request" where
  "executePaymentJson payerId =
     \<lparr> payer_id = payerId,
       transactions =
         [\<lparr> amount = \<lparr> currency = js ''USD'', total = js ''1.00'' \<rparr> \<rparr>] \<rparr>"

subsection \<open>Fixed-point amounts, as the specification words them\<close>

text \<open>
  The specification describes the total as the sum of item price times quantity,
  written with exactly two decimal places. These definitions follow the specification's
  words, to be compared with the literals of the source: an amount is a number of minor
  units (cents), \<open>parse_fixed2\<close> reads \<open>d...d.dd\<close> and \<open>format_fixed2\<close> writes it.
\<close>

definition digit_value :: "16 word \<Rightarrow> nat option" where
  "digit_value c = (if 0x30 \<le> c \<and> c \<le> 0x39 then Some (unat c - 48) else None)"

fun decimal_value :: "nat \<Rightarrow> jsstring \<Rightarrow> nat option" where
  "decimal_value acc [] = Some acc"
| "decimal_value acc (c # cs) =
     (case digit_value c of
        None \<Rightarrow> None
      | Some d \<Rightarrow> decimal_value (10 * acc + d) cs)"

definition parse_fixed2 :: "jsstring \<Rightarrow> nat option" where
  "parse_fixed2 s =
     (let whole = takeWhile (\<lambda>c. c \<noteq> 0x2E) s;
          frac = drop (Suc (length whole)) s
      in if whole \<noteq> [] \<and> length frac = 2 \<and> length s = length whole + 3 then
           (case (decimal_value 0 whole, decimal_value 0 frac) of
              (Some w, Some f) \<Rightarrow> Some (100 * w + f)
            | _ \<Rightarrow> None)
         else None)"

definition format_fixed2 :: "nat \<Rightarrow> jsstring" where
  "format_fixed2 n =
     decimal (n div 100) @ [0x2E, word_of_nat (48 + (n div 10) mod 10), word_of_nat (48 + n mod 10)]"

fun items_total :: "item list \<Rightarrow> nat option" where
  "items_total [] = Some 0"
| "items_total (i # is) =
     (case (parse_fixed2 (price i), items_total is) of
        (Some p, Some t) \<Rightarrow> Some (p * quantity i + t)
      | _ \<Rightarrow> None)"

section \<open>Configuration (configuration.js)\<close>

text \<open>
  \<open>process.env\<close> maps a variable name to its text, or to \<open>undefined\<close> (\<open>None\<close>).
  In \<open>a || b\<close> an undefined or empty text is falsy, so the next alternative is taken.
  \<open>PORT\<close> is the text of a variable or the number 3978.
\<close>

datatype port = PortString jsstring | PortNumber nat

record configuration =
  HOST :: jsstring
  PORT :: port
  PAYPAL_CLIENT_MODE :: "jsstring option"
  PAYPAL_CLIENT_ID :: "jsstring option"
  PAYPAL_CLIENT_SECRET :: "jsstring option"

definition truthy :: "jsstring option \<Rightarrow> jsstring option" where
  "truthy v = (case v of None \<Rightarrow> None | Some s \<Rightarrow> if s = [] then None else Some s)"

definition load_configuration :: "(string \<Rightarrow> jsstring option) \<Rightarrow> configuration" where
  "load_configuration env =
     \<lparr> HOST = (case truthy (env ''HOST'') of Some h \<Rightarrow> h | None \<Rightarrow> js ''localhost''),
       PORT =
         (case truthy (env ''PORT'') of
            Some p \<Rightarrow> PortString p
          | None \<Rightarrow>
              (case truthy (env ''port'') of
                 Some p \<Rightarrow> PortString p
               | None \<Rightarrow> PortNumber 3978)),
       PAYPAL_CLIENT_MODE = env ''PAYPAL_CLIENT_MODE'',
       PAYPAL_CLIENT_ID = env ''PAYPAL_CLIENT_ID'',
       PAYPAL_CLIENT_SECRET = env ''PAYPAL_CLIENT_SECRET'' \<rparr>"

text \<open>The text of a port where it is concatenated to a string, and its truthiness.\<close>

definition port_text :: "port \<Rightarrow> jsstring" where
  "port_text p = (case p of PortString s \<Rightarrow> s | PortNumber n \<Rightarrow> decimal n)"

definition port_truthy :: "port \<Rightarrow> bool" where
  "port_truthy p = (case p of PortString s \<Rightarrow> s \<noteq> [] | PortNumber n \<Rightarrow> n \<noteq> 0)"

section \<open>The platform's URL functions\<close>

text \<open>
  The source calls \<open>url.format\<close> of Node.js, which writes the query object with
  \<open>querystring.stringify\<close>. Both are modelled for the properties the source sets
  (protocol, hostname, port, pathname, query). \<open>querystring.escape\<close> keeps the unescaped
  characters of \<open>encodeURIComponent\<close> and percent-encodes the UTF-8 octets of the rest,
  and it is taken to be \<open>encodeURIComponent\<close> here, as older versions of Node.js define
  it. On strings without a lone surrogate the versions agree; on a lone surrogate this
  model throws \<open>URIError\<close>, where later versions throw only when the surrogate is the
  last code unit. The query object is an ordered list of properties, in insertion order.
\<close>

record urlObject =
  protocol :: jsstring
  hostname :: jsstring
  port :: port
  pathname :: jsstring
  query :: "(jsstring \<times> jsstring) list"

fun querystring_stringify :: "(jsstring \<times> jsstring) list \<Rightarrow> js_error + jsstring" where
  "querystring_stringify [] = Inr []"
| "querystring_stringify ((k, v) # rest) =
     (case encodeURIComponent k of
        Inl e \<Rightarrow> Inl e
      | Inr ek \<Rightarrow>
          (case encodeURIComponent v of
             Inl e \<Rightarrow> Inl e
           | Inr ev \<Rightarrow>
               (case querystring_stringify rest of
                  Inl e \<Rightarrow> Inl e
                | Inr r \<Rightarrow>
                    Inr (ek @ [0x3D] @ ev @ (if rest = [] then [] else 0x26 # r)))))"

text \<open>\<open>s.replace('#', '%23')\<close>: the first \<open>#\<close> only.\<close>

fun replace_first_hash :: "jsstring \<Rightarrow> jsstring" where
  "replace_first_hash [] = []"
| "replace_first_hash (c # cs) =
     (if c = 0x23 then js ''%23'' @ cs else c # replace_first_hash cs)"

text \<open>\<open>pathname.replace(/[?#]/g, encodeURIComponent)\<close>: every \<open>?\<close> and \<open>#\<close>.\<close>

fun escape_pathname :: "jsstring \<Rightarrow> jsstring" where
  "escape_pathname [] = []"
| "escape_pathname (c # cs) =
     (if c = 0x3F then js ''%3F'' @ escape_pathname cs
      else if c = 0x23 then js ''%23'' @ escape_pathname cs
      else c # escape_pathname cs)"

definition slashedProtocol :: "jsstring \<Rightarrow> bool" where
  "slashedProtocol p \<longleftrightarrow>
     p \<in> set (map js [''http:'', ''https:'', ''ftp:'', ''gopher:'', ''file:''])"

definition url_format :: "urlObject \<Rightarrow> js_error + jsstring" where
  "url_format u =
     (case querystring_stringify (query u) of
        Inl e \<Rightarrow> Inl e
      | Inr q \<Rightarrow>
          (let proto = (if protocol u \<noteq> [] \<and> last (protocol u) \<noteq> 0x3A
                        then protocol u @ [0x3A] else protocol u);
               host = (if 0x3A \<in> set (hostname u) then [0x5B] @ hostname u @ [0x5D]
                       else hostname u)
                      @ (if port_truthy (port u) then 0x3A # port_text (port u) else []);
               slashes = ((proto = [] \<or> slashedProtocol proto) \<and> hostname u \<noteq> []);
               host' = (if slashes then js ''//'' @ host
                        else if hostname u \<noteq> [] then host else []);
               path = (case pathname u of
                         [] \<Rightarrow> []
                       | c # cs \<Rightarrow> if slashes \<and> c \<noteq> 0x2F then 0x2F # c # cs else c # cs);
               search = (if q = [] then [] else 0x3F # q)
           in Inr (proto @ host' @ escape_pathname path @ replace_first_hash search)))"

section \<open>Conversation data and effects\<close>

text \<open>
  The address of the incoming message, with the fields the source reads. They are
  strings, as the ConversationAddress of the specification has them.
\<close>

record identity =
  id' :: jsstring

record address =
  id' :: jsstring
  channelId :: jsstring
  user :: identity
  conversation :: identity
  serviceUrl :: jsstring

record incoming_message =
  address :: address

record session =
  message :: incoming_message

text \<open>
  The address that respondToUser builds. Its fields come from the callback's
  parameters, where an absent parameter reads as \<open>undefined\<close> (\<open>None\<close>).
\<close>

record reply_identity =
  id' :: "jsstring option"
  name :: "jsstring option"

record reply_conversation =
  id' :: "jsstring option"

record reply_address =
  channelId :: "jsstring option"
  user :: reply_identity
  conversation :: reply_conversation
  bot :: reply_identity
  serviceUrl :: jsstring
  useAuth :: bool

record message =
  address :: reply_address
  text' :: jsstring

text \<open>The payment object of the provider's answer, and its links.\<close>

record link =
  rel :: jsstring
  href :: jsstring

record payment =
  links :: "link list"

text \<open>
  What the program does to the outside, in the order it does it: a line on the console,
  a message to the session of the dialog, the choice prompt, a call of the payment
  provider, a message sent by the bot, and the response of the HTTP server.
\<close>

datatype effect =
    ConsoleLog jsstring
  | SessionSend jsstring
  | PromptsChoice jsstring "jsstring list"
  | PaymentCreate create_request
  | PaymentExecute "jsstring option" execute_request
  | BotSend message
  | ResSend nat

section \<open>The return URL (app.js, createReturnUrl)\<close>

text \<open>The local \<open>queryObject\<close>; \<open>encodeURIComponent\<close> may throw.\<close>

definition return_queryObject :: "address \<Rightarrow> js_error + (jsstring \<times> jsstring) list" where
  "return_queryObject a =
     (case encodeURIComponent (address.serviceUrl a) of
        Inl e \<Rightarrow> Inl e
      | Inr botServiceUrl \<Rightarrow>
          Inr [(js ''addressId'', address.id' a),
               (js ''conversationId'', identity.id' (address.conversation a)),
               (js ''userId'', identity.id' (address.user a)),
               (js ''channelId'', address.channelId a),
               (js ''botServiceUrl'', botServiceUrl)])"

text \<open>The local \<open>urlObject\<close>.\<close>

definition return_urlObject :: "configuration \<Rightarrow> (jsstring \<times> jsstring) list \<Rightarrow> urlObject" where
  "return_urlObject cfg queryObject =
     \<lparr> protocol = js ''http'',
       hostname = js ''localhost'',
       port = PORT cfg,
       pathname = js ''approvalComplete'',
       query = queryObject \<rparr>"

definition createReturnUrl :: "configuration \<Rightarrow> address \<Rightarrow> effect list \<times> (js_error + jsstring)" where
  "createReturnUrl cfg a =
     ([ConsoleLog (js ''Creating Return Url'')],
      (case return_queryObject a of
         Inl e \<Rightarrow> Inl e
       | Inr queryObject \<Rightarrow> url_format (return_urlObject cfg queryObject)))"

section \<open>Creating the payment (app.js, createAndSendPayment)\<close>

text \<open>
  The provider's answer to a call is an input of the model: an error or a payment. The
  loop of the callback sends one message for each link whose \<open>rel\<close> is
  \<open>approval_url\<close>.
\<close>

fun approval_messages :: "link list \<Rightarrow> effect list" where
  "approval_messages [] = []"
| "approval_messages (l # ls) =
     (if rel l = js ''approval_url''
      then SessionSend (js ''Please pay your fine: '' @ href l) # approval_messages ls
      else approval_messages ls)"

definition createAndSendPayment_callback ::
  "provider_error + payment \<Rightarrow> effect list \<times> js_error option" where
  "createAndSendPayment_callback answer =
     (case answer of
        Inl error \<Rightarrow> ([], Some (ProviderError error))
      | Inr payment \<Rightarrow> (approval_messages (links payment), None))"

definition createAndSendPayment ::
  "configuration \<Rightarrow> session \<Rightarrow> provider_error + payment \<Rightarrow> effect list \<times> js_error option" where
  "createAndSendPayment cfg session answer =
     (case createReturnUrl cfg (incoming_message.address (message session)) of
        (logged, Inl e) \<Rightarrow> (ConsoleLog (js ''Creating Payment'') # logged, Some e)
      | (logged, Inr returnUrl) \<Rightarrow>
          (let paymentJson = createPaymentJson returnUrl (js ''http://localhost'')
           in (ConsoleLog (js ''Creating Payment'') # logged @ [PaymentCreate paymentJson]
                 @ fst (createAndSendPayment_callback answer),
               snd (createAndSendPayment_callback answer))))"

section \<open>Executing the payment (app.js, executePayment and respondToUser)\<close>

text \<open>
  The parameters of the callback request: a parameter is a string, or absent. The
  variables that the provider's callback closes over are kept in a record.
\<close>

type_synonym parameters = "jsstring \<Rightarrow> jsstring option"

record correlation =
  botServiceUrl :: jsstring
  channelId :: "jsstring option"
  addressId :: "jsstring option"
  conversationId :: "jsstring option"
  userId :: "jsstring option"

text \<open>\<open>decodeURIComponent\<close> converts its argument to a string first.\<close>

definition to_string :: "jsstring option \<Rightarrow> jsstring" where
  "to_string v = (case v of None \<Rightarrow> js ''undefined'' | Some s \<Rightarrow> s)"

definition respondToUser ::
  "payment \<Rightarrow> jsstring \<Rightarrow> jsstring option \<Rightarrow> jsstring option \<Rightarrow> jsstring option \<Rightarrow>
   jsstring option \<Rightarrow> effect list" where
  "respondToUser payment botServiceUrl channelId addressId conversationId userId =
     [BotSend
        \<lparr> message.address =
            \<lparr> reply_address.channelId = channelId,
              reply_address.user =
                \<lparr> reply_identity.id' = userId, reply_identity.name = userId \<rparr>,
              reply_address.conversation = \<lparr> reply_conversation.id' = conversationId \<rparr>,
              reply_address.bot =
                \<lparr> reply_identity.id' = Some (js ''paybot''),
                  reply_identity.name = Some (js ''paybot'') \<rparr>,
              reply_address.serviceUrl = botServiceUrl,
              reply_address.useAuth = False \<rparr>,
          message.text' = js ''Thanks for your payment!'' \<rparr>]"
  for botServiceUrl channelId addressId conversationId userId

text \<open>The part of executePayment that runs before the provider answers.\<close>

definition executePayment_begin ::
  "parameters \<Rightarrow> effect list \<times> (js_error + correlation)" where
  "executePayment_begin parameters =
     (let paymentId = parameters (js ''paymentId'');
          payerId = parameters (js ''PayerID'');
          paymentJson = executePaymentJson payerId
      in case decodeURIComponent (to_string (parameters (js ''botServiceUrl''))) of
           Inl e \<Rightarrow> ([ConsoleLog (js ''Executing an Approved Payment'')], Inl e)
         | Inr decoded \<Rightarrow>
             ([ConsoleLog (js ''Executing an Approved Payment''),
               PaymentExecute paymentId paymentJson],
              Inr \<lparr> correlation.botServiceUrl = decoded,
                    correlation.channelId = parameters (js ''channelId''),
                    correlation.addressId = parameters (js ''addressId''),
                    correlation.conversationId = parameters (js ''conversationId''),
                    correlation.userId = parameters (js ''userId'') \<rparr>))"

text \<open>The callback given to \<open>paypal.payment.execute\<close>.\<close>

definition executePayment_callback ::
  "correlation \<Rightarrow> provider_error + payment \<Rightarrow> effect list \<times> js_error option" where
  "executePayment_callback k answer =
     (case answer of
        Inl error \<Rightarrow> ([ConsoleLog (response error)], Some (ProviderError error))
      | Inr payment \<Rightarrow>
          (ConsoleLog (js ''Payment Executed Successfully'')
             # respondToUser payment (botServiceUrl k) (correlation.channelId k) (addressId k)
                 (conversationId k) (userId k),
           None))"

definition executePayment ::
  "parameters \<Rightarrow> provider_error + payment \<Rightarrow> effect list \<times> js_error option" where
  "executePayment parameters answer =
     (case executePayment_begin parameters of
        (before, Inl e) \<Rightarrow> (before, Some e)
      | (before, Inr k) \<Rightarrow>
          (before @ fst (executePayment_callback k answer),
           snd (executePayment_callback k answer)))"

section \<open>The approval callback of the HTTP server (app.js, server.get)\<close>

text \<open>
  The handler calls executePayment and then sends 200. The provider answers later, so
  the effects of its callback come after the response. When executePayment throws, the
  handler ends there, without a response of its own.
\<close>

definition approvalComplete ::
  "parameters \<Rightarrow> provider_error + payment \<Rightarrow> effect list \<times> js_error option" where
  "approvalComplete parameters answer =
     (case executePayment_begin parameters of
        (before, Inl e) \<Rightarrow> (ConsoleLog (js ''User approved transaction'') # before, Some e)
      | (before, Inr k) \<Rightarrow>
          (ConsoleLog (js ''User approved transaction'') # before @ [ResSend 200]
             @ fst (executePayment_callback k answer),
           snd (executePayment_callback k answer)))"

section \<open>The dialog (app.js, listFines)\<close>

record choice =
  entity :: jsstring

record prompt_results =
  response :: "choice option"

definition listFines_step1 :: "effect list" where
  "listFines_step1 =
     [ConsoleLog (js ''List Fines Dialog''),
      SessionSend (js ''You have 1 outstanding fine:''),
      SessionSend (js ''Parking Fine Violation''),
      PromptsChoice (js ''What would you like to do?'') [js ''Pay fine'', js ''Cancel'']]"

text \<open>Reading \<open>entity\<close> of an undefined response throws a TypeError.\<close>

definition listFines_step2 ::
  "configuration \<Rightarrow> session \<Rightarrow> prompt_results \<Rightarrow> provider_error + payment \<Rightarrow>
   effect list \<times> js_error option" where
  "listFines_step2 cfg session results answer =
     (case prompt_results.response results of
        None \<Rightarrow> ([], Some TypeError)
      | Some choice \<Rightarrow>
          if entity choice = js ''Cancel'' then ([], None)
          else createAndSendPayment cfg session answer)"

section \<open>The query parser of the HTTP server\<close>

text \<open>
  The server parses the query of the request URL into the parameters of the handler
  (restify's queryParser, which uses the qs parser). The model: the query is the text
  after the first \<open>?\<close>, up to a \<open>#\<close>; it is split at \<open>&\<close>, each part at its first \<open>=\<close>;
  key and value are decoded with \<open>+\<close> read as a space, and a text that does not decode
  is kept as it is. The parser builds arrays for a repeated key and objects for a key
  with brackets or dots, and it drops parts beyond its limit of 1000: such queries have
  no string-valued parameters, and the model gives \<open>None\<close> for them.
\<close>

definition getQuery :: "jsstring \<Rightarrow> jsstring" where
  "getQuery url = drop 1 (dropWhile (\<lambda>c. c \<noteq> 0x3F) (takeWhile (\<lambda>c. c \<noteq> 0x23) url))"

fun split_on :: "16 word \<Rightarrow> jsstring \<Rightarrow> jsstring list" where
  "split_on sep [] = [[]]"
| "split_on sep (c # cs) =
     (if c = sep then [] # split_on sep cs
      else (case split_on sep cs of
              [] \<Rightarrow> [[c]]
            | p # ps \<Rightarrow> (c # p) # ps))"

definition qs_decode :: "jsstring \<Rightarrow> jsstring" where
  "qs_decode s =
     (case decodeURIComponent (map (\<lambda>c. if c = 0x2B then 0x20 else c) s) of
        Inl e \<Rightarrow> s
      | Inr d \<Rightarrow> d)"

definition parse_part :: "jsstring \<Rightarrow> jsstring \<times> jsstring" where
  "parse_part p =
     (let k = takeWhile (\<lambda>c. c \<noteq> 0x3D) p
      in (qs_decode k, qs_decode (drop (Suc (length k)) p)))"

definition plain_part :: "jsstring \<Rightarrow> bool" where
  "plain_part p \<longleftrightarrow> 0x5B \<notin> set p \<and> 0x5D \<notin> set p"

definition plain_key :: "jsstring \<Rightarrow> bool" where
  "plain_key k \<longleftrightarrow> k \<noteq> [] \<and> 0x5B \<notin> set k \<and> 0x5D \<notin> set k \<and> 0x2E \<notin> set k"

definition queryParser :: "jsstring \<Rightarrow> parameters option" where
  "queryParser q =
     (if q = [] then Some (\<lambda>k. None)
      else
        (let parts = split_on 0x26 q;
             pairs = map parse_part parts
         in if length parts \<le> 1000 \<and> list_all plain_part parts \<and>
               list_all plain_key (map fst pairs) \<and> distinct (map fst pairs)
            then Some (map_of pairs)
            else None))"

text \<open>
  The route on a request URL whose path is \<open>/approvalComplete\<close>: the parser fills the
  parameters, then the handler runs. For any other path the router does not reach the
  handler, and the model gives \<open>None\<close>, as it does where the parser has no
  string-valued parameters. The result holds the effects of the handler and of the
  provider's callback only: what the server does by itself after the handler has thrown
  (restify answers 500) is not among them.
\<close>

definition getPath :: "jsstring \<Rightarrow> jsstring" where
  "getPath url = takeWhile (\<lambda>c. c \<noteq> 0x3F) (takeWhile (\<lambda>c. c \<noteq> 0x23) url)"

definition approvalComplete_request ::
  "jsstring \<Rightarrow> provider_error + payment \<Rightarrow> (effect list \<times> js_error option) option" where
  "approvalComplete_request url answer =
     (if getPath url = js ''/approvalComplete''
      then map_option (\<lambda>parameters. approvalComplete parameters answer)
             (queryParser (getQuery url))
      else None)"

section \<open>Observations, well-formed strings, valid ports\<close>

text \<open>What a run has sent to the session, sent by the bot, answered over HTTP, and asked
  of the payment provider, each in order.\<close>

fun sent_to_session :: "effect list \<Rightarrow> jsstring list" where
  "sent_to_session [] = []"
| "sent_to_session (SessionSend s # es) = s # sent_to_session es"
| "sent_to_session (e # es) = sent_to_session es"

fun sent_by_bot :: "effect list \<Rightarrow> message list" where
  "sent_by_bot [] = []"
| "sent_by_bot (BotSend m # es) = m # sent_by_bot es"
| "sent_by_bot (e # es) = sent_by_bot es"

fun responses :: "effect list \<Rightarrow> nat list" where
  "responses [] = []"
| "responses (ResSend n # es) = n # responses es"
| "responses (e # es) = responses es"

fun payments_created :: "effect list \<Rightarrow> create_request list" where
  "payments_created [] = []"
| "payments_created (PaymentCreate r # es) = r # payments_created es"
| "payments_created (e # es) = payments_created es"

fun payments_executed :: "effect list \<Rightarrow> (jsstring option \<times> execute_request) list" where
  "payments_executed [] = []"
| "payments_executed (PaymentExecute i r # es) = (i, r) # payments_executed es"
| "payments_executed (e # es) = payments_executed es"

text \<open>
  A string is well formed when it has no lone surrogate: these are the strings on which
  \<open>encodeURIComponent\<close> returns. A port is valid when it is a positive number or a
  non-empty text of decimal digits.
\<close>

fun well_formed :: "jsstring \<Rightarrow> bool" where
  "well_formed [] = True"
| "well_formed (c # cs) =
     (if 0xDC00 \<le> c \<and> c \<le> 0xDFFF then False
      else if c < 0xD800 \<or> 0xDBFF < c then well_formed cs
      else
        (case cs of
           [] \<Rightarrow> False
         | d # ds \<Rightarrow> if d < 0xDC00 \<or> 0xDFFF < d then False else well_formed ds))"

definition valid_port :: "port \<Rightarrow> bool" where
  "valid_port p =
     (case p of
        PortString s \<Rightarrow> s \<noteq> [] \<and> list_all (\<lambda>c. 0x30 \<le> c \<and> c \<le> 0x39) s
      | PortNumber n \<Rightarrow> n \<noteq> 0)"

text \<open>The characters that \<open>encodeURIComponent\<close> can write.\<close>

definition url_safe :: "16 word \<Rightarrow> bool" where
  "url_safe c \<longleftrightarrow> uriUnescaped c \<or> c = 0x25"

section \<open>The scenario of the specification\<close>

text \<open>
  The address of the specification's scenario (channel test, user u1, conversation c1),
  with a service URL that contains \<open>?\<close>, \<open>&\<close> and \<open>%\<close>, under the configuration of
  an empty environment; the return URL that createReturnUrl builds for it; the
  parameters of the callback request for that URL, with the provider's own; a callback
  without userId and addressId; and a callback whose botServiceUrl is a lone \<open>%\<close>.
\<close>

definition scenario_address :: address where
  "scenario_address =
     \<lparr> address.id' = js ''a1'',
       address.channelId = js ''test'',
       address.user = \<lparr> identity.id' = js ''u1'' \<rparr>,
       address.conversation = \<lparr> identity.id' = js ''c1'' \<rparr>,
       address.serviceUrl = js ''http://svc/x?y=1&z=%25'' \<rparr>"

definition scenario_session :: session where
  "scenario_session = \<lparr> message = \<lparr> incoming_message.address = scenario_address \<rparr> \<rparr>"

definition default_configuration :: configuration where
  "default_configuration = load_configuration (\<lambda>v. None)"

definition scenario_return_url :: jsstring where
  "scenario_return_url =
     js ''http://localhost:3978/approvalComplete?addressId=a1&conversationId=c1&userId=u1&channelId=test&botServiceUrl=http%253A%252F%252Fsvc%252Fx%253Fy%253D1%2526z%253D%252525''"

definition scenario_parameters :: parameters where
  "scenario_parameters =
     map_of [(js ''addressId'', js ''a1''), (js ''conversationId'', js ''c1''),
             (js ''userId'', js ''u1''), (js ''channelId'', js ''test''),
             (js ''botServiceUrl'', js ''http%3A%2F%2Fsvc%2Fx%3Fy%3D1%26z%3D%2525''),
             (js ''paymentId'', js ''PAY-1''), (js ''PayerID'', js ''payer'')]"

definition partial_parameters :: parameters where
  "partial_parameters =
     map_of [(js ''conversationId'', js ''c1''), (js ''channelId'', js ''test''),
             (js ''botServiceUrl'', js ''http%3A%2F%2Fsvc'')]"

definition malformed_parameters :: parameters where
  "malformed_parameters = map_of [(js ''botServiceUrl'', js ''%'')]"

definition payment_without_approval :: payment where
  "payment_without_approval =
     \<lparr> links = [\<lparr> rel = js ''self'', href = js ''https://api.example/payment/1'' \<rparr>] \<rparr>"

section \<open>Properties of the codec\<close>

lemma hexValue_hexDigit_upto: "list_all (\<lambda>n. hexValue (hexDigit n) = Some n) [0..<16]"
  by code_simp

lemma hexValue_hexDigit: "n < 16 \<Longrightarrow> hexValue (hexDigit n) = Some n"
  using hexValue_hexDigit_upto by (simp add: list_all_iff)

declare read_escape.simps [simp del]

lemma read_escape_percent:
  assumes "b < 256"
  shows "read_escape (0x25 # hexDigit (b div 16) # hexDigit (b mod 16) # r) = Some (b, r)"
proof -
  have "b div 16 < 16" "b mod 16 < 16" using assms by auto
  then show ?thesis by (simp add: hexValue_hexDigit read_escape.simps)
qed

lemma escape_octets_Cons:
  "escape_octets (b # bs) @ r = 0x25 # hexDigit (b div 16) # hexDigit (b mod 16) # (escape_octets bs @ r)"
  by (simp add: escape_octets_def percent_def)

lemma escape_octets_Nil: "escape_octets [] @ r = r"
  by (simp add: escape_octets_def)

lemma read_continuation_escape_octets:
  "list_all (\<lambda>x. 128 \<le> x \<and> x < 192) bs \<Longrightarrow>
   read_continuation (length bs) (escape_octets bs @ r) = Some (bs, r)"
proof (induction bs)
  case Nil
  then show ?case by (simp add: escape_octets_Nil)
next
  case (Cons b bs)
  then have b: "b < 256" "b div 64 = 2" by auto
  from Cons show ?case
    by (simp add: escape_octets_Cons read_escape_percent b)
qed

lemma decode_single_octet:
  "v < 0x80 \<Longrightarrow>
   decodeURIComponent (escape_octets [v] @ r) = prepend [word_of_nat v] (decodeURIComponent r)"
  by (simp add: escape_octets_Cons escape_octets_Nil read_escape_percent)

lemma decode_multi_octet:
  assumes "0xC0 \<le> b" "b < 0xF8" "length bs = utf8_length b - 1"
    and "list_all (\<lambda>x. 128 \<le> x \<and> x < 192) bs" "utf8_code_point b bs = Some v"
  shows "decodeURIComponent (escape_octets (b # bs) @ r) = prepend (code_units v) (decodeURIComponent r)"
proof -
  have "b < 256" "\<not> b < 0x80" "\<not> (b < 0xC0 \<or> 0xF8 \<le> b)" using assms by auto
  moreover have "read_continuation (utf8_length b - 1) (escape_octets bs @ r) = Some (bs, r)"
    using read_continuation_escape_octets [OF assms(4), of r] assms(3) by simp
  ultimately show ?thesis
    using assms(5) by (simp add: escape_octets_Cons read_escape_percent)
qed

lemma utf8_octets_2:
  assumes "0x80 \<le> v" "v < 0x800"
  shows "decodeURIComponent (escape_octets (utf8_octets v) @ r) = prepend (code_units v) (decodeURIComponent r)"
proof -
  have o: "utf8_octets v = [0xC0 + v div 64, 0x80 + v mod 64]"
    using assms by (simp add: utf8_octets_def)
  show ?thesis unfolding o
  proof (rule decode_multi_octet)
    show "utf8_code_point (0xC0 + v div 64) [0x80 + v mod 64] = Some v"
      using assms by (simp add: utf8_code_point_def)
  qed (use assms in \<open>simp_all add: utf8_length_def\<close>)
qed

lemma radix64_3: "A = B * 64 + C \<Longrightarrow> v = A * 64 + D \<Longrightarrow> B * 4096 + C * 64 + D = (v::nat)"
  by simp

lemma radix64_4:
  "A' = B' * 64 + C' \<Longrightarrow> A = A' * 64 + C \<Longrightarrow> v = A * 64 + D \<Longrightarrow>
   B' * 262144 + C' * 4096 + C * 64 + D = (v::nat)"
  by simp

lemma split_octets_3: "v div 4096 * 4096 + v div 64 mod 64 * 64 + v mod 64 = (v::nat)"
proof -
  have "v div 4096 = v div 64 div 64" by (simp add: div_mult2_eq)
  moreover have "v div 64 = v div 64 div 64 * 64 + v div 64 mod 64" by simp
  moreover have "v = v div 64 * 64 + v mod 64" by simp
  ultimately show ?thesis using radix64_3 [of "v div 64" "v div 64 div 64" "v div 64 mod 64" v "v mod 64"]
    by simp
qed

lemma split_octets_4:
  "v div 262144 * 262144 + v div 4096 mod 64 * 4096 + v div 64 mod 64 * 64 + v mod 64 = (v::nat)"
proof -
  have a: "v div 4096 = v div 64 div 64" by (simp add: div_mult2_eq)
  have b: "v div 262144 = v div 64 div 64 div 64" by (simp add: div_mult2_eq)
  have "v div 64 div 64 = v div 64 div 64 div 64 * 64 + v div 64 div 64 mod 64" by simp
  moreover have "v div 64 = v div 64 div 64 * 64 + v div 64 mod 64" by simp
  moreover have "v = v div 64 * 64 + v mod 64" by simp
  ultimately show ?thesis
    using radix64_4 [of "v div 64 div 64" "v div 64 div 64 div 64" "v div 64 div 64 mod 64"
        "v div 64" "v div 64 mod 64" v "v mod 64"]
    unfolding a b by simp
qed

lemma utf8_octets_3:
  assumes "0x800 \<le> v" "v < 0x10000" "v < 0xD800 \<or> 0xDFFF < v"
  shows "decodeURIComponent (escape_octets (utf8_octets v) @ r) = prepend (code_units v) (decodeURIComponent r)"
proof -
  have o: "utf8_octets v = [0xE0 + v div 4096, 0x80 + (v div 64) mod 64, 0x80 + v mod 64]"
    using assms by (simp add: utf8_octets_def)
  have d: "v div 4096 < 16" using assms(2) by (simp add: less_mult_imp_div_less)
  show ?thesis unfolding o
  proof (rule decode_multi_octet)
    show "utf8_code_point (0xE0 + v div 4096) [0x80 + (v div 64) mod 64, 0x80 + v mod 64] = Some v"
      using assms by (simp add: utf8_code_point_def split_octets_3)
    show "0xE0 + v div 4096 < 0xF8" using d by simp
    show "length [0x80 + (v div 64) mod 64, 0x80 + v mod 64] = utf8_length (0xE0 + v div 4096) - 1"
      using d by (simp add: utf8_length_def)
  qed simp_all
qed

lemma utf8_octets_4:
  assumes "0x10000 \<le> v" "v \<le> 0x10FFFF"
  shows "decodeURIComponent (escape_octets (utf8_octets v) @ r) = prepend (code_units v) (decodeURIComponent r)"
proof -
  have o: "utf8_octets v = [0xF0 + v div 262144, 0x80 + (v div 4096) mod 64, 0x80 + (v div 64) mod 64, 0x80 + v mod 64]"
    using assms by (simp add: utf8_octets_def)
  have d: "v div 262144 < 8" using assms(2) by (simp add: less_mult_imp_div_less)
  show ?thesis unfolding o
  proof (rule decode_multi_octet)
    show "utf8_code_point (0xF0 + v div 262144) [0x80 + (v div 4096) mod 64, 0x80 + (v div 64) mod 64, 0x80 + v mod 64] = Some v"
      using assms by (simp add: utf8_code_point_def split_octets_4)
    show "0xF0 + v div 262144 < 0xF8" using d by simp
    show "length [0x80 + (v div 4096) mod 64, 0x80 + (v div 64) mod 64, 0x80 + v mod 64] = utf8_length (0xF0 + v div 262144) - 1"
      by (simp add: utf8_length_def)
  qed simp_all
qed

lemma decode_code_point:
  assumes "v \<le> 0x10FFFF" "v < 0xD800 \<or> 0xDFFF < v"
  shows "decodeURIComponent (escape_octets (utf8_octets v) @ r) = prepend (code_units v) (decodeURIComponent r)"
proof -
  consider "v < 0x80" | "0x80 \<le> v" "v < 0x800" | "0x800 \<le> v" "v < 0x10000" | "0x10000 \<le> v"
    by linarith
  then show ?thesis
  proof cases
    case 1
    then have "utf8_octets v = [v]" "code_units v = [word_of_nat v]"
      by (simp_all add: utf8_octets_def code_units_def)
    then show ?thesis using decode_single_octet [OF 1, of r] by simp
  next
    case 2
    then show ?thesis by (rule utf8_octets_2)
  next
    case 3
    then show ?thesis using assms(2) by (rule utf8_octets_3)
  next
    case 4
    then show ?thesis using assms(1) by (rule utf8_octets_4)
  qed
qed

lemma prepend_Inr [simp]: "prepend p (Inr s) = Inr (p @ s)"
  by (simp add: prepend_def)

lemma prepend_Inl [simp]: "prepend p (Inl e) = Inl e"
  by (simp add: prepend_def)

lemma prepend_eq_Inr: "prepend p r = Inr e \<longleftrightarrow> (\<exists>s. r = Inr s \<and> e = p @ s)"
  by (cases r) auto

lemma uriUnescaped_not_percent: "uriUnescaped c \<Longrightarrow> c \<noteq> 0x25"
  by (auto simp: uriUnescaped_def js_def)

lemma code_units_single: "code_units (unat (c :: 16 word)) = [c]"
proof -
  have "unat c < 65536" using unsigned_less [of c] by simp
  then show ?thesis by (simp add: code_units_def)
qed

lemma code_units_pair:
  fixes c d :: "16 word"
  assumes "0xD800 \<le> unat c" "unat c \<le> 0xDBFF" "0xDC00 \<le> unat d" "unat d \<le> 0xDFFF"
  shows "code_units ((unat c - 0xD800) * 0x400 + (unat d - 0xDC00) + 0x10000) = [c, d]"
proof -
  define a where "a = unat c - 0xD800"
  define b where "b = unat d - 0xDC00"
  have uc: "unat c = a + 0xD800" and ud: "unat d = b + 0xDC00" and b: "b < 0x400"
    using assms by (simp_all add: a_def b_def)
  have "(word_of_nat (a + 0xD800) :: 16 word) = word_of_nat (unat c)" by (simp only: uc)
  then have c: "(word_of_nat (a + 0xD800) :: 16 word) = c" by simp
  have "(word_of_nat (b + 0xDC00) :: 16 word) = word_of_nat (unat d)" by (simp only: ud)
  then have d: "(word_of_nat (b + 0xDC00) :: 16 word) = d" by simp
  have "code_units (a * 0x400 + b + 0x10000) = [word_of_nat (a + 0xD800), word_of_nat (b + 0xDC00)]"
    using b by (simp add: code_units_def del: of_nat_add)
  then have "code_units (a * 0x400 + b + 0x10000) = [c, d]" by (simp only: c d)
  then show ?thesis by (simp only: a_def b_def)
qed

declare encodeURIComponent.simps(2) [simp del]

theorem decode_encode:
  "encodeURIComponent s = Inr e \<Longrightarrow> decodeURIComponent e = Inr s"
proof (induction s arbitrary: e rule: encodeURIComponent.induct)
  case 1
  then show ?case by simp
next
  case (2 c cs)
  show ?case
  proof (cases "uriUnescaped c")
    case True
    with "2.prems" obtain e' where e': "encodeURIComponent cs = Inr e'" "e = c # e'"
      by (auto simp: encodeURIComponent.simps(2) prepend_eq_Inr)
    from "2.IH"(1) [OF True e'(1)] e'(2) uriUnescaped_not_percent [OF True]
    show ?thesis by simp
  next
    case False
    note esc = False
    from "2.prems" False have low: "\<not> (0xDC00 \<le> c \<and> c \<le> 0xDFFF)"
      by (auto simp: encodeURIComponent.simps(2))
    show ?thesis
    proof (cases "c < 0xD800 \<or> 0xDBFF < c")
      case True
      with "2.prems" esc low obtain e' where
        e': "encodeURIComponent cs = Inr e'" "e = escape_octets (utf8_octets (unat c)) @ e'"
        by (auto simp: encodeURIComponent.simps(2) prepend_eq_Inr)
      have "unat c < 65536" using unsigned_less [of c] by simp
      then have v: "unat c \<le> 0x10FFFF" by simp
      have ns: "unat c < 0xD800 \<or> 0xDFFF < unat c"
        using True low by (auto simp: word_le_nat_alt word_less_nat_alt)
      show ?thesis
        using "2.IH"(2) [OF esc low True e'(1)]
        by (simp add: e'(2) decode_code_point [OF v ns] code_units_single)
    next
      case False
      note high = False
      with "2.prems" esc low obtain d ds where cs: "cs = d # ds"
        by (cases cs) (auto simp: encodeURIComponent.simps(2))
      from "2.prems" esc low high cs have dl: "\<not> (d < 0xDC00 \<or> 0xDFFF < d)"
        by (auto simp: encodeURIComponent.simps(2) split: if_splits)
      let ?v = "(unat c - 0xD800) * 0x400 + (unat d - 0xDC00) + 0x10000"
      from "2.prems" esc low high cs dl obtain e' where
        e': "encodeURIComponent ds = Inr e'" "e = escape_octets (utf8_octets ?v) @ e'"
        by (auto simp: encodeURIComponent.simps(2) prepend_eq_Inr)
      have rc: "0xD800 \<le> unat c" "unat c \<le> 0xDBFF" "0xDC00 \<le> unat d" "unat d \<le> 0xDFFF"
        using high dl by (auto simp: word_le_nat_alt word_less_nat_alt)
      then have v: "?v \<le> 0x10FFFF" and ns: "?v < 0xD800 \<or> 0xDFFF < ?v" by simp_all
      show ?thesis
        using "2.IH"(3) [OF esc low high cs dl e'(1)]
        by (simp only: e'(2) decode_code_point [OF v ns] code_units_pair [OF rc] cs prepend_Inr append.simps)
    qed
  qed
qed


lemma hexDigit_unescaped_upto: "list_all (\<lambda>n. uriUnescaped (hexDigit n)) [0..<16]"
  by code_simp

lemma hexDigit_unescaped: "n < 16 \<Longrightarrow> uriUnescaped (hexDigit n)"
  using hexDigit_unescaped_upto by (simp add: list_all_iff)

lemma percent_safe: "b < 256 \<Longrightarrow> list_all url_safe (percent b)"
proof -
  assume "b < 256"
  then have "b div 16 < 16" "b mod 16 < 16" by auto
  then show ?thesis by (simp add: percent_def url_safe_def hexDigit_unescaped)
qed

lemma escape_octets_safe:
  "list_all (\<lambda>b. b < 256) bs \<Longrightarrow> list_all url_safe (escape_octets bs)"
  by (induction bs) (simp_all add: escape_octets_def percent_safe)

lemma utf8_octets_bound: "v \<le> 0x10FFFF \<Longrightarrow> list_all (\<lambda>b. b < 256) (utf8_octets v)"
proof -
  assume v: "v \<le> 0x10FFFF"
  have m: "v mod 64 < 128" "v div 64 mod 64 < 128" "v div 4096 mod 64 < 128"
    by (rule order_less_trans [OF mod_less_divisor]; simp)+
  consider "v < 0x80" | "0x80 \<le> v" "v < 0x800" | "0x800 \<le> v" "v < 0x10000" | "0x10000 \<le> v"
    by linarith
  then show ?thesis
  proof cases
    case 1
    then show ?thesis by (simp add: utf8_octets_def)
  next
    case 2
    then have "v div 64 < 32" by (simp add: less_mult_imp_div_less)
    with 2 m show ?thesis by (simp add: utf8_octets_def)
  next
    case 3
    then have "v div 4096 < 16" by (simp add: less_mult_imp_div_less)
    with 3 m show ?thesis by (simp add: utf8_octets_def)
  next
    case 4
    have "v div 262144 < 5" using v by (simp add: less_mult_imp_div_less)
    with 4 m show ?thesis by (simp add: utf8_octets_def)
  qed
qed

lemma encodeURIComponent_safe:
  "encodeURIComponent s = Inr e \<Longrightarrow> list_all url_safe e"
proof (induction s arbitrary: e rule: encodeURIComponent.induct)
  case 1
  then show ?case by simp
next
  case (2 c cs)
  have single: "list_all url_safe (escape_octets (utf8_octets (unat c)))"
  proof -
    have "unat c < 65536" using unsigned_less [of c] by simp
    then have "unat c \<le> 0x10FFFF" by simp
    then show ?thesis by (intro escape_octets_safe utf8_octets_bound)
  qed
  show ?case
  proof (cases "uriUnescaped c")
    case True
    with "2.prems" obtain e' where e': "encodeURIComponent cs = Inr e'" "e = c # e'"
      by (auto simp: encodeURIComponent.simps(2) prepend_eq_Inr)
    from "2.IH"(1) [OF True e'(1)] e'(2) True show ?thesis by (simp add: url_safe_def)
  next
    case False
    note esc = False
    from "2.prems" False have low: "\<not> (0xDC00 \<le> c \<and> c \<le> 0xDFFF)"
      by (auto simp: encodeURIComponent.simps(2))
    show ?thesis
    proof (cases "c < 0xD800 \<or> 0xDBFF < c")
      case True
      with "2.prems" esc low obtain e' where
        e': "encodeURIComponent cs = Inr e'" "e = escape_octets (utf8_octets (unat c)) @ e'"
        by (auto simp: encodeURIComponent.simps(2) prepend_eq_Inr)
      show ?thesis
        using "2.IH"(2) [OF esc low True e'(1)] single by (simp add: e'(2))
    next
      case False
      note high = False
      with "2.prems" esc low obtain d ds where cs: "cs = d # ds"
        by (cases cs) (auto simp: encodeURIComponent.simps(2))
      from "2.prems" esc low high cs have dl: "\<not> (d < 0xDC00 \<or> 0xDFFF < d)"
        by (auto simp: encodeURIComponent.simps(2) split: if_splits)
      let ?v = "(unat c - 0xD800) * 0x400 + (unat d - 0xDC00) + 0x10000"
      from "2.prems" esc low high cs dl obtain e' where
        e': "encodeURIComponent ds = Inr e'" "e = escape_octets (utf8_octets ?v) @ e'"
        by (auto simp: encodeURIComponent.simps(2) prepend_eq_Inr)
      have rc: "0xD800 \<le> unat c" "unat c \<le> 0xDBFF" "0xDC00 \<le> unat d" "unat d \<le> 0xDFFF"
        using high dl by (auto simp: word_le_nat_alt word_less_nat_alt)
      then have v: "?v \<le> 0x10FFFF" by simp
      have "list_all url_safe (escape_octets (utf8_octets ?v))"
        using v by (intro escape_octets_safe utf8_octets_bound)
      then show ?thesis
        using "2.IH"(3) [OF esc low high cs dl e'(1)] by (simp add: e'(2))
    qed
  qed
qed

lemma uriUnescaped_low: "uriUnescaped c \<Longrightarrow> c < 0x80"
  by (auto simp: uriUnescaped_def js_def word_le_nat_alt word_less_nat_alt)

lemma prepend_isr: "(\<exists>e. prepend p r = Inr e) \<longleftrightarrow> (\<exists>e. r = Inr e)"
  by (cases r) simp_all

lemma encodeURIComponent_total:
  "(\<exists>e. encodeURIComponent s = Inr e) \<longleftrightarrow> well_formed s"
proof (induction s rule: encodeURIComponent.induct)
  case 1
  then show ?case by simp
next
  case (2 c cs)
  show ?case
  proof (cases "uriUnescaped c")
    case True
    then have "c < 0xD800" "\<not> 0xDC00 \<le> c"
      using uriUnescaped_low [of c] by (simp_all add: word_less_nat_alt word_le_nat_alt)
    with True "2.IH"(1) show ?thesis
      by (auto simp: encodeURIComponent.simps(2) prepend_isr)
  next
    case False
    note esc = False
    show ?thesis
    proof (cases "0xDC00 \<le> c \<and> c \<le> 0xDFFF")
      case True
      with esc show ?thesis by (auto simp: encodeURIComponent.simps(2))
    next
      case False
      note low = False
      show ?thesis
      proof (cases "c < 0xD800 \<or> 0xDBFF < c")
        case True
        with esc low "2.IH"(2) show ?thesis
          by (auto simp: encodeURIComponent.simps(2) prepend_isr)
      next
        case False
        note high = False
        show ?thesis
        proof (cases cs)
          case Nil
          with esc low high show ?thesis by (auto simp: encodeURIComponent.simps(2))
        next
          case (Cons d ds)
          show ?thesis
          proof (cases "d < 0xDC00 \<or> 0xDFFF < d")
            case True
            with esc low high Cons show ?thesis by (auto simp: encodeURIComponent.simps(2))
          next
            case False
            with esc low high Cons "2.IH"(3) show ?thesis
              by (auto simp: encodeURIComponent.simps(2) prepend_isr)
          qed
        qed
      qed
    qed
  qed
qed

lemma url_safe_low: "url_safe c \<Longrightarrow> c < 0x80"
  using uriUnescaped_low [of c] by (auto simp: url_safe_def)

lemma safe_well_formed: "list_all url_safe s \<Longrightarrow> well_formed s"
proof (induction s)
  case Nil
  then show ?case by simp
next
  case (Cons c s)
  then have "c < 0x80" by (simp add: url_safe_low)
  then have "c < 0xD800" "\<not> 0xDC00 \<le> c"
    by (simp_all add: word_le_nat_alt word_less_nat_alt)
  with Cons show ?case by simp
qed

lemma unsafe_chars:
  "\<not> url_safe 0x26" "\<not> url_safe 0x3D" "\<not> url_safe 0x2B" "\<not> url_safe 0x23"
  "\<not> url_safe 0x3F" "\<not> url_safe 0x5B" "\<not> url_safe 0x5D"
  by (simp_all add: url_safe_def uriUnescaped_def js_def)

lemma safe_not_member: "list_all url_safe e \<Longrightarrow> \<not> url_safe c \<Longrightarrow> c \<notin> set e"
  by (auto simp: list_all_iff)

lemma qs_decode_encoded:
  assumes "encodeURIComponent x = Inr e"
  shows "qs_decode e = x"
proof -
  have "0x2B \<notin> set e"
    using encodeURIComponent_safe [OF assms] unsafe_chars(3) by (rule safe_not_member)
  then have "map (\<lambda>c. if c = 0x2B then 0x20 else c) e = e"
    by (induction e) simp_all
  then show ?thesis using decode_encode [OF assms] by (simp add: qs_decode_def)
qed

lemma takeWhile_before: "y \<notin> set xs \<Longrightarrow> takeWhile (\<lambda>c. c \<noteq> y) (xs @ y # ys) = xs"
  by (induction xs) auto

lemma part_parse:
  assumes "encodeURIComponent k = Inr k" "encodeURIComponent x = Inr e"
  shows "parse_part (k @ 0x3D # e) = (k, x)"
proof -
  have "0x3D \<notin> set k"
    using encodeURIComponent_safe [OF assms(1)] unsafe_chars(2) by (rule safe_not_member)
  then have "takeWhile (\<lambda>c. c \<noteq> 0x3D) (k @ 0x3D # e) = k" by (rule takeWhile_before)
  then show ?thesis
    using qs_decode_encoded [OF assms(1)] qs_decode_encoded [OF assms(2)]
    by (simp add: parse_part_def)
qed

lemma part_chars:
  assumes "encodeURIComponent k = Inr k" "encodeURIComponent x = Inr e"
  shows "0x26 \<notin> set (k @ 0x3D # e)" "0x23 \<notin> set (k @ 0x3D # e)"
    "0x5B \<notin> set (k @ 0x3D # e)" "0x5D \<notin> set (k @ 0x3D # e)"
  using safe_not_member [OF encodeURIComponent_safe [OF assms(1)]]
    safe_not_member [OF encodeURIComponent_safe [OF assms(2)]] unsafe_chars
  by simp_all

lemma split_on_single: "sep \<notin> set p \<Longrightarrow> split_on sep p = [p]"
  by (induction p) auto

lemma split_on_append: "sep \<notin> set p \<Longrightarrow> split_on sep (p @ sep # r) = p # split_on sep r"
  by (induction p) auto

section \<open>Properties of the effects\<close>

lemma sent_to_session_append [simp]:
  "sent_to_session (xs @ ys) = sent_to_session xs @ sent_to_session ys"
  by (induction xs rule: sent_to_session.induct) simp_all

lemma sent_by_bot_append [simp]: "sent_by_bot (xs @ ys) = sent_by_bot xs @ sent_by_bot ys"
  by (induction xs rule: sent_by_bot.induct) simp_all

lemma responses_append [simp]: "responses (xs @ ys) = responses xs @ responses ys"
  by (induction xs rule: responses.induct) simp_all

lemma payments_created_append [simp]:
  "payments_created (xs @ ys) = payments_created xs @ payments_created ys"
  by (induction xs rule: payments_created.induct) simp_all

lemma approval_messages_none:
  "list_all (\<lambda>l. rel l \<noteq> js ''approval_url'') ls \<Longrightarrow> approval_messages ls = []"
  by (induction ls) simp_all

lemma createReturnUrl_logged: "fst (createReturnUrl cfg a) = [ConsoleLog (js ''Creating Return Url'')]"
  by (simp add: createReturnUrl_def)

lemma createAndSendPayment_effects: "fst (createAndSendPayment cfg session answer) \<noteq> []"
  by (simp add: createAndSendPayment_def split: prod.splits sum.splits)

section \<open>Properties of the URL functions and the query parser\<close>

declare decimal.simps [simp del]

lemma key_encodings:
  "encodeURIComponent (js ''addressId'') = Inr (js ''addressId'')"
  "encodeURIComponent (js ''conversationId'') = Inr (js ''conversationId'')"
  "encodeURIComponent (js ''userId'') = Inr (js ''userId'')"
  "encodeURIComponent (js ''channelId'') = Inr (js ''channelId'')"
  "encodeURIComponent (js ''botServiceUrl'') = Inr (js ''botServiceUrl'')"
  by code_simp+

lemma stringify_five:
  assumes "encodeURIComponent k1 = Inr k1" "encodeURIComponent k2 = Inr k2"
    "encodeURIComponent k3 = Inr k3" "encodeURIComponent k4 = Inr k4"
    "encodeURIComponent k5 = Inr k5"
    and "encodeURIComponent x1 = Inr e1" "encodeURIComponent x2 = Inr e2"
    "encodeURIComponent x3 = Inr e3" "encodeURIComponent x4 = Inr e4"
    "encodeURIComponent x5 = Inr e5"
  shows "querystring_stringify [(k1, x1), (k2, x2), (k3, x3), (k4, x4), (k5, x5)] =
           Inr ((k1 @ 0x3D # e1) @ 0x26 # (k2 @ 0x3D # e2) @ 0x26 # (k3 @ 0x3D # e3) @ 0x26 #
                (k4 @ 0x3D # e4) @ 0x26 # (k5 @ 0x3D # e5))"
  using assms by simp

lemma split_five:
  assumes "sep \<notin> set p1" "sep \<notin> set p2" "sep \<notin> set p3" "sep \<notin> set p4" "sep \<notin> set p5"
  shows "split_on sep (p1 @ sep # p2 @ sep # p3 @ sep # p4 @ sep # p5) = [p1, p2, p3, p4, p5]"
  using assms by (simp add: split_on_append split_on_single)

lemma digit_chars_upto: "list_all (\<lambda>d. 0x30 \<le> (word_of_nat (48 + d) :: 16 word) \<and>
    (word_of_nat (48 + d) :: 16 word) \<le> 0x39) [0..<10]"
  by code_simp

lemma digit_char:
  "d < 10 \<Longrightarrow> 0x30 \<le> (word_of_nat (48 + d) :: 16 word) \<and> (word_of_nat (48 + d) :: 16 word) \<le> 0x39"
  using digit_chars_upto by (simp add: list_all_iff del: of_nat_add)

lemma decimal_digits: "list_all (\<lambda>c. 0x30 \<le> c \<and> c \<le> 0x39) (decimal n)"
proof (induction n rule: decimal.induct)
  case (1 n)
  show ?case
  proof (cases "n < 10")
    case True
    then show ?thesis using digit_char [of n] by (subst decimal.simps) (simp del: of_nat_add)
  next
    case False
    have "n mod 10 < 10" by simp
    then show ?thesis
      using False "1.IH" digit_char [of "n mod 10"]
      by (subst decimal.simps) (simp del: of_nat_add)
  qed
qed

lemma digits_no_delimiter:
  assumes "list_all (\<lambda>c. 0x30 \<le> c \<and> c \<le> (0x39 :: 16 word)) s"
  shows "0x3F \<notin> set s" "0x23 \<notin> set s"
  using assms by (auto simp: list_all_iff)

lemma valid_port_text:
  assumes "valid_port p"
  shows "port_truthy p" "0x3F \<notin> set (port_text p)" "0x23 \<notin> set (port_text p)"
proof -
  have "list_all (\<lambda>c. 0x30 \<le> c \<and> c \<le> 0x39) (port_text p)"
    using assms decimal_digits by (cases p) (simp_all add: valid_port_def port_text_def)
  then show "0x3F \<notin> set (port_text p)" "0x23 \<notin> set (port_text p)"
    by (rule digits_no_delimiter)+
  show "port_truthy p"
    using assms by (cases p) (simp_all add: valid_port_def port_truthy_def)
qed

lemma replace_first_hash_id: "0x23 \<notin> set s \<Longrightarrow> replace_first_hash s = s"
  by (induction s) auto

lemma url_format_return:
  assumes "querystring_stringify q = Inr qs" "qs \<noteq> []" "0x23 \<notin> set qs" "port_truthy (PORT cfg)"
  shows "url_format (return_urlObject cfg q) =
           Inr ((js ''http://localhost:'' @ port_text (PORT cfg) @ js ''/approvalComplete'') @ 0x3F # qs)"
  using assms
  by (simp add: url_format_def return_urlObject_def Let_def slashedProtocol_def js_def
      replace_first_hash_id)

lemma getQuery_url:
  assumes "0x3F \<notin> set pre" "0x23 \<notin> set pre" "0x23 \<notin> set q"
  shows "getQuery (pre @ 0x3F # q) = q"
proof -
  have "takeWhile (\<lambda>c. c \<noteq> 0x23) (pre @ 0x3F # q) = pre @ 0x3F # q"
    using assms(2,3) by (auto simp: takeWhile_eq_all_conv)
  moreover have "dropWhile (\<lambda>c. c \<noteq> 0x3F) (pre @ 0x3F # q) = 0x3F # q"
    using assms(1) by (induction pre) auto
  ultimately show ?thesis by (simp only: getQuery_def drop_Suc_Cons drop_0 One_nat_def)
qed

lemma queryParser_five:
  assumes "0x26 \<notin> set p1" "0x26 \<notin> set p2" "0x26 \<notin> set p3" "0x26 \<notin> set p4" "0x26 \<notin> set p5"
    and "list_all plain_part [p1, p2, p3, p4, p5]"
    and "parse_part p1 = (k1, x1)" "parse_part p2 = (k2, x2)" "parse_part p3 = (k3, x3)"
      "parse_part p4 = (k4, x4)" "parse_part p5 = (k5, x5)"
    and "list_all plain_key [k1, k2, k3, k4, k5]" "distinct [k1, k2, k3, k4, k5]"
  shows "queryParser (p1 @ 0x26 # p2 @ 0x26 # p3 @ 0x26 # p4 @ 0x26 # p5) =
           Some (map_of [(k1, x1), (k2, x2), (k3, x3), (k4, x4), (k5, x5)])"
proof -
  have "p1 @ 0x26 # p2 @ 0x26 # p3 @ 0x26 # p4 @ 0x26 # p5 \<noteq> []" by simp
  moreover have "split_on 0x26 (p1 @ 0x26 # p2 @ 0x26 # p3 @ 0x26 # p4 @ 0x26 # p5) =
      [p1, p2, p3, p4, p5]"
    using assms(1-5) by (rule split_five)
  ultimately show ?thesis
    using assms(6-13) unfolding queryParser_def Let_def by simp
qed

lemma default_port: "PORT default_configuration = PortNumber 3978"
  by (simp add: default_configuration_def load_configuration_def truthy_def)

lemma load_configuration_port_truthy: "port_truthy (PORT (load_configuration env))"
  by (simp add: load_configuration_def truthy_def port_truthy_def
      split: option.splits if_splits)

lemma createReturnUrl_host: "createReturnUrl (cfg\<lparr>HOST := h\<rparr>) a = createReturnUrl cfg a"
  by (simp add: createReturnUrl_def return_urlObject_def split: sum.splits)

lemma stringify_Cons_Inr:
  "querystring_stringify ((k, v) # rest) = Inr qs \<Longrightarrow>
   \<exists>ek ev r. encodeURIComponent k = Inr ek \<and> encodeURIComponent v = Inr ev \<and>
     querystring_stringify rest = Inr r \<and> qs = ek @ [0x3D] @ ev @ (if rest = [] then [] else 0x26 # r)"
  by (auto split: sum.splits)

lemma stringify_chars:
  "querystring_stringify q = Inr qs \<Longrightarrow> 0x23 \<notin> set qs"
proof (induction q arbitrary: qs)
  case Nil
  then show ?case by simp
next
  case (Cons p q)
  obtain k v where p: "p = (k, v)" by (cases p)
  from Cons.prems obtain ek ev r where
    r: "encodeURIComponent k = Inr ek" "encodeURIComponent v = Inr ev"
      "querystring_stringify q = Inr r" "qs = ek @ [0x3D] @ ev @ (if q = [] then [] else 0x26 # r)"
    unfolding p by (blast dest: stringify_Cons_Inr)
  have "0x23 \<notin> set ek" "0x23 \<notin> set ev"
    using safe_not_member [OF encodeURIComponent_safe [OF r(1)] unsafe_chars(4)]
      safe_not_member [OF encodeURIComponent_safe [OF r(2)] unsafe_chars(4)] by simp_all
  with Cons.IH [OF r(3)] r(4) show ?case by simp
qed

lemma stringify_nonempty: "querystring_stringify (p # q) = Inr qs \<Longrightarrow> qs \<noteq> []"
  by (cases p) (auto split: sum.splits)

section \<open>The scenario, evaluated\<close>

lemma scenario_url: "snd (createReturnUrl default_configuration scenario_address) = Inr scenario_return_url"
  by code_simp

lemma scenario_decode:
  "decodeURIComponent (to_string (scenario_parameters (js ''botServiceUrl''))) =
     Inr (address.serviceUrl scenario_address)"
  by code_simp


lemma scenario_well_formed:
  "well_formed (address.id' scenario_address)"
  "well_formed (identity.id' (address.conversation scenario_address))"
  "well_formed (identity.id' (address.user scenario_address))"
  "well_formed (address.channelId scenario_address)"
  "well_formed (address.serviceUrl scenario_address)"
  by code_simp+

lemma scenario_createReturnUrl:
  "createReturnUrl default_configuration scenario_address =
     ([ConsoleLog (js ''Creating Return Url'')], Inr scenario_return_url)"
  using scenario_url createReturnUrl_logged [of default_configuration scenario_address]
  by (simp add: prod_eq_iff)

section \<open>Properties of the payment request builder\<close>

lemma js_Nil: "js [] = []"
  by (simp add: js_def)

lemma js_Cons: "js (c # cs) = word_of_nat (of_char c) # js cs"
  by (simp add: js_def)

lemma format_fixed2_100: "format_fixed2 100 = js ''1.00''"
  by (simp add: format_fixed2_def decimal.simps js_Nil js_Cons)

section \<open>The claims of the specification\<close>

subsection \<open>Correlation codec\<close>

text \<open>
  C1. For every address whose strings are well formed, and every valid port, createReturnUrl
  returns a URL; the server's parser reads the query of that URL into parameters; and
  from those parameters executePayment recovers exactly the address id, the
  conversation id, the user id, the channel id and, after its decodeURIComponent pass,
  the service URL, character for character. Nothing is assumed of the characters of the
  service URL, so it may contain \<open>?\<close>, \<open>&\<close> or \<open>%\<close>.
\<close>

theorem return_url_round_trip:
  assumes wf: "well_formed (address.id' a)" "well_formed (identity.id' (address.conversation a))"
      "well_formed (identity.id' (address.user a))" "well_formed (address.channelId a)"
      "well_formed (address.serviceUrl a)"
    and port: "valid_port (PORT cfg)"
  shows "\<exists>url parameters.
           snd (createReturnUrl cfg a) = Inr url \<and>
           queryParser (getQuery url) = Some parameters \<and>
           snd (executePayment_begin parameters) =
             Inr \<lparr> correlation.botServiceUrl = address.serviceUrl a,
                   correlation.channelId = Some (address.channelId a),
                   correlation.addressId = Some (address.id' a),
                   correlation.conversationId = Some (identity.id' (address.conversation a)),
                   correlation.userId = Some (identity.id' (address.user a)) \<rparr>"
proof -
  from wf obtain e1 e2 e3 e4 e5 where
    e: "encodeURIComponent (address.id' a) = Inr e1"
      "encodeURIComponent (identity.id' (address.conversation a)) = Inr e2"
      "encodeURIComponent (identity.id' (address.user a)) = Inr e3"
      "encodeURIComponent (address.channelId a) = Inr e4"
      "encodeURIComponent (address.serviceUrl a) = Inr e5"
    unfolding encodeURIComponent_total [symmetric] by blast
  have "well_formed e5" using encodeURIComponent_safe [OF e(5)] by (rule safe_well_formed)
  then obtain e6 where e6: "encodeURIComponent e5 = Inr e6"
    unfolding encodeURIComponent_total [symmetric] by blast
  let ?k1 = "js ''addressId''" and ?k2 = "js ''conversationId''" and ?k3 = "js ''userId''"
    and ?k4 = "js ''channelId''" and ?k5 = "js ''botServiceUrl''"
  let ?p1 = "?k1 @ 0x3D # e1" and ?p2 = "?k2 @ 0x3D # e2" and ?p3 = "?k3 @ 0x3D # e3"
    and ?p4 = "?k4 @ 0x3D # e4" and ?p5 = "?k5 @ 0x3D # e6"
  let ?q = "?p1 @ 0x26 # ?p2 @ 0x26 # ?p3 @ 0x26 # ?p4 @ 0x26 # ?p5"
  let ?pre = "js ''http://localhost:'' @ port_text (PORT cfg) @ js ''/approvalComplete''"
  let ?ps = "map_of [(?k1, address.id' a), (?k2, identity.id' (address.conversation a)),
    (?k3, identity.id' (address.user a)), (?k4, address.channelId a), (?k5, e5)]"
  note k = key_encodings
  have qo: "return_queryObject a =
      Inr [(?k1, address.id' a), (?k2, identity.id' (address.conversation a)),
           (?k3, identity.id' (address.user a)), (?k4, address.channelId a), (?k5, e5)]"
    by (simp add: return_queryObject_def e(5))
  have st: "querystring_stringify
      [(?k1, address.id' a), (?k2, identity.id' (address.conversation a)),
       (?k3, identity.id' (address.user a)), (?k4, address.channelId a), (?k5, e5)] = Inr ?q"
    by (rule stringify_five [OF k e(1-4) e6])
  have amp: "0x26 \<notin> set ?p1" "0x26 \<notin> set ?p2" "0x26 \<notin> set ?p3" "0x26 \<notin> set ?p4"
      "0x26 \<notin> set ?p5"
    by (rule part_chars(1) [OF k(1) e(1)] part_chars(1) [OF k(2) e(2)]
        part_chars(1) [OF k(3) e(3)] part_chars(1) [OF k(4) e(4)] part_chars(1) [OF k(5) e6])+
  have hash: "0x23 \<notin> set ?q"
    using part_chars(2) [OF k(1) e(1)] part_chars(2) [OF k(2) e(2)] part_chars(2) [OF k(3) e(3)]
      part_chars(2) [OF k(4) e(4)] part_chars(2) [OF k(5) e6]
    by simp
  have "?q \<noteq> []" by (simp add: js_def)
  from url_format_return [OF st this hash valid_port_text(1) [OF port]] qo
  have url: "snd (createReturnUrl cfg a) = Inr (?pre @ 0x3F # ?q)"
    by (simp add: createReturnUrl_def)
  have pre: "0x3F \<notin> set ?pre" "0x23 \<notin> set ?pre"
    using valid_port_text(2,3) [OF port] by (simp_all add: js_def)
  have query: "getQuery (?pre @ 0x3F # ?q) = ?q"
    using pre hash by (rule getQuery_url)
  have plain_parts: "list_all plain_part [?p1, ?p2, ?p3, ?p4, ?p5]"
    using part_chars(3,4) [OF k(1) e(1)] part_chars(3,4) [OF k(2) e(2)]
      part_chars(3,4) [OF k(3) e(3)] part_chars(3,4) [OF k(4) e(4)] part_chars(3,4) [OF k(5) e6]
    by (simp add: plain_part_def)
  have plain_keys: "list_all plain_key [?k1, ?k2, ?k3, ?k4, ?k5]"
    by (simp add: plain_key_def js_def)
  have keys: "distinct [?k1, ?k2, ?k3, ?k4, ?k5]"
    by (simp add: js_def)
  have parsed: "queryParser ?q = Some ?ps"
    by (rule queryParser_five [OF amp plain_parts part_parse [OF k(1) e(1)]
          part_parse [OF k(2) e(2)] part_parse [OF k(3) e(3)] part_parse [OF k(4) e(4)]
          part_parse [OF k(5) e6] plain_keys keys])
  have look: "?ps ?k1 = Some (address.id' a)"
    "?ps ?k2 = Some (identity.id' (address.conversation a))"
    "?ps ?k3 = Some (identity.id' (address.user a))"
    "?ps ?k4 = Some (address.channelId a)" "?ps ?k5 = Some e5"
    by (simp_all add: js_def)
  have "snd (executePayment_begin ?ps) =
      Inr \<lparr> correlation.botServiceUrl = address.serviceUrl a,
            correlation.channelId = Some (address.channelId a),
            correlation.addressId = Some (address.id' a),
            correlation.conversationId = Some (identity.id' (address.conversation a)),
            correlation.userId = Some (identity.id' (address.user a)) \<rparr>"
    unfolding executePayment_begin_def Let_def look
    by (simp add: to_string_def decode_encode [OF e(5)])
  with url query parsed show ?thesis by auto
qed

theorem return_url_round_trip_witness:
  "well_formed (address.id' scenario_address) \<and>
   well_formed (identity.id' (address.conversation scenario_address)) \<and>
   well_formed (identity.id' (address.user scenario_address)) \<and>
   well_formed (address.channelId scenario_address) \<and>
   well_formed (address.serviceUrl scenario_address) \<and>
   valid_port (PORT default_configuration) \<and>
   (\<exists>url parameters.
      snd (createReturnUrl default_configuration scenario_address) = Inr url \<and>
      queryParser (getQuery url) = Some parameters \<and>
      snd (executePayment_begin parameters) =
        Inr \<lparr> correlation.botServiceUrl = address.serviceUrl scenario_address,
              correlation.channelId = Some (address.channelId scenario_address),
              correlation.addressId = Some (address.id' scenario_address),
              correlation.conversationId =
                Some (identity.id' (address.conversation scenario_address)),
              correlation.userId = Some (identity.id' (address.user scenario_address)) \<rparr>)"
proof -
  have p: "valid_port (PORT default_configuration)"
    by (simp add: default_port valid_port_def)
  note w = scenario_well_formed
  from return_url_round_trip [OF w p] w p show ?thesis by blast
qed

text \<open>
  C2. The claim is that a callback lacking conversationId, userId, channelId or
  botServiceUrl is rejected with a missing-field error. The source has no such check:
  executePayment reads each parameter as it is, \<open>undefined\<close> when absent, and an absent
  botServiceUrl decodes to the text "undefined". The only failure of the step is the
  URIError of a botServiceUrl that does not decode. Amended: for every parameter map, the
  correlation that executePayment works with holds the four identifiers exactly as the
  parameters give them, absent ones included.
\<close>

theorem executePayment_begin_no_validation:
  "snd (executePayment_begin parameters) =
     (case decodeURIComponent (to_string (parameters (js ''botServiceUrl''))) of
        Inl e \<Rightarrow> Inl e
      | Inr decoded \<Rightarrow>
          Inr \<lparr> correlation.botServiceUrl = decoded,
                correlation.channelId = parameters (js ''channelId''),
                correlation.addressId = parameters (js ''addressId''),
                correlation.conversationId = parameters (js ''conversationId''),
                correlation.userId = parameters (js ''userId'') \<rparr>) \<and>
   decodeURIComponent (to_string None) = Inr (js ''undefined'')"
  by (simp add: executePayment_begin_def to_string_def js_def split: sum.splits)

theorem missing_userId_accepted:
  "partial_parameters (js ''userId'') = None \<and>
   snd (executePayment_begin partial_parameters) =
     Inr \<lparr> correlation.botServiceUrl = js ''http://svc'',
           correlation.channelId = Some (js ''test''),
           correlation.addressId = None,
           correlation.conversationId = Some (js ''c1''),
           correlation.userId = None \<rparr> \<and>
   sent_by_bot (fst (executePayment partial_parameters (Inr \<lparr> links = [] \<rparr>))) =
     [\<lparr> message.address =
          \<lparr> reply_address.channelId = Some (js ''test''),
            reply_address.user = \<lparr> reply_identity.id' = None, reply_identity.name = None \<rparr>,
            reply_address.conversation = \<lparr> reply_conversation.id' = Some (js ''c1'') \<rparr>,
            reply_address.bot =
              \<lparr> reply_identity.id' = Some (js ''paybot''),
                reply_identity.name = Some (js ''paybot'') \<rparr>,
            reply_address.serviceUrl = js ''http://svc'',
            reply_address.useAuth = False \<rparr>,
        message.text' = js ''Thanks for your payment!'' \<rparr>]"
  by code_simp

subsection \<open>Dialog flow\<close>

text \<open>
  C3. The claim is that every response other than "Pay fine" ends the flow with no side
  effect. The second step tests for "Cancel" only. Amended: the step ends with no effect
  exactly when the entity of the response is "Cancel"; for every other entity, "Pay fine"
  among them, it runs createAndSendPayment, which always has an effect.
\<close>

theorem listFines_step2_choice:
  "listFines_step2 cfg session \<lparr> response = Some choice \<rparr> answer =
     (if entity choice = js ''Cancel'' then ([], None)
      else createAndSendPayment cfg session answer) \<and>
   listFines_step2 cfg session \<lparr> response = Some \<lparr> entity = js ''Pay fine'' \<rparr> \<rparr> answer =
     createAndSendPayment cfg session answer \<and>
   fst (createAndSendPayment cfg session answer) \<noteq> []"
  by (simp add: listFines_step2_def createAndSendPayment_effects js_def)

theorem listFines_step2_other_choice:
  "js ''Maybe'' \<noteq> js ''Pay fine'' \<and>
   payments_created
     (fst (listFines_step2 default_configuration scenario_session
        \<lparr> response = Some \<lparr> entity = js ''Maybe'' \<rparr> \<rparr> (Inr \<lparr> links = [] \<rparr>))) =
     [createPaymentJson scenario_return_url (js ''http://localhost'')]"
proof -
  have "js ''Maybe'' \<noteq> js ''Cancel''" "js ''Maybe'' \<noteq> js ''Pay fine''"
    by (simp_all add: js_def)
  then show ?thesis
    using scenario_createReturnUrl
    by (simp add: listFines_step2_def createAndSendPayment_def scenario_session_def
        createAndSendPayment_callback_def)
qed

subsection \<open>Payment orchestrator\<close>

text \<open>
  C4. The claim is that a created payment without an approval_url link is reported as
  an error. The callback only loops over the links. Amended: when no link of the created
  payment has rel "approval_url" and the return URL was built, createAndSendPayment logs,
  calls the provider, sends no message to the session, and ends without an error.
\<close>

theorem createAndSendPayment_no_approval_link:
  assumes "list_all (\<lambda>l. rel l \<noteq> js ''approval_url'') (links payment)"
    and "snd (createReturnUrl cfg (incoming_message.address (message session))) = Inr returnUrl"
  shows "createAndSendPayment cfg session (Inr payment) =
           ([ConsoleLog (js ''Creating Payment''), ConsoleLog (js ''Creating Return Url''),
             PaymentCreate (createPaymentJson returnUrl (js ''http://localhost''))],
            None)"
proof -
  have "createReturnUrl cfg (incoming_message.address (message session)) =
          ([ConsoleLog (js ''Creating Return Url'')], Inr returnUrl)"
    using assms(2) createReturnUrl_logged [of cfg "incoming_message.address (message session)"]
    by (simp add: prod_eq_iff)
  then show ?thesis
    using approval_messages_none [OF assms(1)]
    by (simp add: createAndSendPayment_def createAndSendPayment_callback_def)
qed

theorem createAndSendPayment_no_approval_link_witness:
  "list_all (\<lambda>l. rel l \<noteq> js ''approval_url'') (links payment_without_approval) \<and>
   snd (createReturnUrl default_configuration
          (incoming_message.address (message scenario_session))) = Inr scenario_return_url \<and>
   createAndSendPayment default_configuration scenario_session (Inr payment_without_approval) =
     ([ConsoleLog (js ''Creating Payment''), ConsoleLog (js ''Creating Return Url''),
       PaymentCreate (createPaymentJson scenario_return_url (js ''http://localhost''))],
      None)"
proof -
  have l: "list_all (\<lambda>l. rel l \<noteq> js ''approval_url'') (links payment_without_approval)"
    by (simp add: payment_without_approval_def js_def)
  have u: "snd (createReturnUrl default_configuration
      (incoming_message.address (message scenario_session))) = Inr scenario_return_url"
    using scenario_url by (simp add: scenario_session_def)
  from l u createAndSendPayment_no_approval_link [OF l u] show ?thesis by blast
qed

theorem no_links_no_error:
  "createAndSendPayment default_configuration scenario_session (Inr \<lparr> links = [] \<rparr>) =
     ([ConsoleLog (js ''Creating Payment''), ConsoleLog (js ''Creating Return Url''),
       PaymentCreate (createPaymentJson scenario_return_url (js ''http://localhost''))],
      None)"
  using scenario_createReturnUrl
  by (simp add: createAndSendPayment_def scenario_session_def createAndSendPayment_callback_def)

text \<open>
  C5. For every parameter map of the callback on which the provider's execute call is
  made (the botServiceUrl decodes) and succeeds, executePayment calls the provider once,
  sends exactly one message by the bot and ends without an error. The address of that
  message is built from the parameters channelId, userId and conversationId and the
  decoded botServiceUrl, and from constants: the payment that the provider returned has
  no part in it.
\<close>

theorem executePayment_reply:
  assumes "decodeURIComponent (to_string (parameters (js ''botServiceUrl''))) = Inr decoded"
  shows "sent_by_bot (fst (executePayment parameters (Inr payment))) =
           [\<lparr> message.address =
                \<lparr> reply_address.channelId = parameters (js ''channelId''),
                  reply_address.user =
                    \<lparr> reply_identity.id' = parameters (js ''userId''),
                      reply_identity.name = parameters (js ''userId'') \<rparr>,
                  reply_address.conversation =
                    \<lparr> reply_conversation.id' = parameters (js ''conversationId'') \<rparr>,
                  reply_address.bot =
                    \<lparr> reply_identity.id' = Some (js ''paybot''),
                      reply_identity.name = Some (js ''paybot'') \<rparr>,
                  reply_address.serviceUrl = decoded,
                  reply_address.useAuth = False \<rparr>,
              message.text' = js ''Thanks for your payment!'' \<rparr>] \<and>
         payments_executed (fst (executePayment parameters (Inr payment))) =
           [(parameters (js ''paymentId''), executePaymentJson (parameters (js ''PayerID'')))] \<and>
         snd (executePayment parameters (Inr payment)) = None"
  using assms
  by (simp add: executePayment_def executePayment_begin_def executePayment_callback_def
      respondToUser_def)

theorem executePayment_reply_witness:
  "decodeURIComponent (to_string (scenario_parameters (js ''botServiceUrl''))) =
     Inr (address.serviceUrl scenario_address) \<and>
   sent_by_bot (fst (executePayment scenario_parameters (Inr payment_without_approval))) =
     [\<lparr> message.address =
          \<lparr> reply_address.channelId = scenario_parameters (js ''channelId''),
            reply_address.user =
              \<lparr> reply_identity.id' = scenario_parameters (js ''userId''),
                reply_identity.name = scenario_parameters (js ''userId'') \<rparr>,
            reply_address.conversation =
              \<lparr> reply_conversation.id' = scenario_parameters (js ''conversationId'') \<rparr>,
            reply_address.bot =
              \<lparr> reply_identity.id' = Some (js ''paybot''),
                reply_identity.name = Some (js ''paybot'') \<rparr>,
            reply_address.serviceUrl = address.serviceUrl scenario_address,
            reply_address.useAuth = False \<rparr>,
        message.text' = js ''Thanks for your payment!'' \<rparr>] \<and>
   scenario_parameters (js ''channelId'') = Some (js ''test'') \<and>
   scenario_parameters (js ''userId'') = Some (js ''u1'') \<and>
   scenario_parameters (js ''conversationId'') = Some (js ''c1'')"
proof -
  have "scenario_parameters (js ''channelId'') = Some (js ''test'')"
    "scenario_parameters (js ''userId'') = Some (js ''u1'')"
    "scenario_parameters (js ''conversationId'') = Some (js ''c1'')"
    by (simp_all add: scenario_parameters_def js_def)
  with scenario_decode
    executePayment_reply [of scenario_parameters "address.serviceUrl scenario_address"
      payment_without_approval, OF scenario_decode]
  show ?thesis by blast
qed

subsection \<open>The approval callback\<close>

text \<open>
  C7. The claim is that every request to the callback is answered with 200. The handler
  sends 200 after executePayment has returned, and executePayment throws a URIError when
  the botServiceUrl of the request does not decode, as for the request
  \<open>/approvalComplete?botServiceUrl=%25\<close>, whose parameter is a lone \<open>%\<close>. Amended: for every request whose
  botServiceUrl decodes, the handler sends 200 exactly once, after the provider has been
  called and before the provider's answer is handled; this holds whatever the answer is,
  an error or a payment, and handling the answer sends no further response.
\<close>

theorem approvalComplete_responds:
  assumes "decodeURIComponent (to_string (parameters (js ''botServiceUrl''))) = Inr decoded"
  shows "responses (fst (approvalComplete parameters answer)) = [200] \<and>
         fst (approvalComplete parameters answer) =
           [ConsoleLog (js ''User approved transaction''),
            ConsoleLog (js ''Executing an Approved Payment''),
            PaymentExecute (parameters (js ''paymentId''))
              (executePaymentJson (parameters (js ''PayerID''))),
            ResSend 200]
           @ fst (executePayment_callback
                \<lparr> correlation.botServiceUrl = decoded,
                  correlation.channelId = parameters (js ''channelId''),
                  correlation.addressId = parameters (js ''addressId''),
                  correlation.conversationId = parameters (js ''conversationId''),
                  correlation.userId = parameters (js ''userId'') \<rparr>
                answer) \<and>
         responses (fst (executePayment_callback k answer)) = []"
  using assms
  by (cases answer)
    (simp_all add: approvalComplete_def executePayment_begin_def executePayment_callback_def
      respondToUser_def)

theorem approvalComplete_responds_witness:
  "decodeURIComponent (to_string (scenario_parameters (js ''botServiceUrl''))) =
     Inr (address.serviceUrl scenario_address) \<and>
   responses (fst (approvalComplete scenario_parameters
      (Inl (ProviderFailure (js ''PAYMENT_NOT_APPROVED''))))) = [200] \<and>
   snd (approvalComplete scenario_parameters
      (Inl (ProviderFailure (js ''PAYMENT_NOT_APPROVED'')))) =
     Some (ProviderError (ProviderFailure (js ''PAYMENT_NOT_APPROVED'')))"
proof -
  have "snd (approvalComplete scenario_parameters
      (Inl (ProviderFailure (js ''PAYMENT_NOT_APPROVED'')))) =
     Some (ProviderError (ProviderFailure (js ''PAYMENT_NOT_APPROVED'')))"
    using scenario_decode
    by (simp add: approvalComplete_def executePayment_begin_def executePayment_callback_def)
  with scenario_decode
    approvalComplete_responds [of scenario_parameters "address.serviceUrl scenario_address"
      "Inl (ProviderFailure (js ''PAYMENT_NOT_APPROVED''))", OF scenario_decode]
  show ?thesis by blast
qed

theorem malformed_callback_no_response:
  "approvalComplete_request (js ''/approvalComplete?botServiceUrl=%25'') (Inr \<lparr> links = [] \<rparr>) =
     Some ([ConsoleLog (js ''User approved transaction''),
            ConsoleLog (js ''Executing an Approved Payment'')],
           Some URIError) \<and>
   approvalComplete malformed_parameters (Inr \<lparr> links = [] \<rparr>) =
     ([ConsoleLog (js ''User approved transaction''),
       ConsoleLog (js ''Executing an Approved Payment'')],
      Some URIError) \<and>
   responses (fst (approvalComplete malformed_parameters (Inr \<lparr> links = [] \<rparr>))) = []"
  by code_simp

subsection \<open>Payment request builder\<close>

text \<open>
  C6. For the fixed fine, the total of the transaction amount of executePaymentJson
  equals the total of the transaction amount of createPaymentJson, whatever the payer id
  and the URLs, and both are the sum of item price times quantity of the created
  request's items, written with exactly two decimal places.
\<close>

theorem amount_consistency:
  "map (\<lambda>t. total (execute_transaction.amount t))
       (execute_request.transactions (executePaymentJson payerId)) =
   map (\<lambda>t. total (transaction.amount t))
       (create_request.transactions (createPaymentJson returnUrl cancelUrl)) \<and>
   map (\<lambda>t. Some (total (transaction.amount t)))
       (create_request.transactions (createPaymentJson returnUrl cancelUrl)) =
   map (\<lambda>t. map_option format_fixed2 (items_total (items (item_list t))))
       (create_request.transactions (createPaymentJson returnUrl cancelUrl))"
  by (simp add: createPaymentJson_def executePaymentJson_def parse_fixed2_def
      digit_value_def format_fixed2_def decimal.simps js_Nil js_Cons)

text \<open>
  C8. For every returnUrl and cancelUrl, createPaymentJson returns a structure with
  intent "sale", payer.payment_method "paypal", redirect_urls holding the two given URLs,
  and exactly one transaction, which contains the item list (the one fine), the total
  amount as a fixed-point decimal string ("1.00", which reads as 100 minor units), and
  the description. The function is total: it returns the structure itself, with no error
  value.
\<close>

theorem createPaymentJson_structure:
  "intent (createPaymentJson returnUrl cancelUrl) = js ''sale'' \<and>
   payment_method (payer (createPaymentJson returnUrl cancelUrl)) = js ''paypal'' \<and>
   return_url (redirect_urls (createPaymentJson returnUrl cancelUrl)) = returnUrl \<and>
   cancel_url (redirect_urls (createPaymentJson returnUrl cancelUrl)) = cancelUrl \<and>
   (\<exists>t. create_request.transactions (createPaymentJson returnUrl cancelUrl) = [t] \<and>
        items (item_list t) =
          [\<lparr> item.name = js ''Fine'', item.sku = js ''ParkingFine'', item.price = js ''1.00'',
             item.currency = js ''USD'', item.quantity = 1 \<rparr>] \<and>
        transaction.amount t = \<lparr> amount.currency = js ''USD'', amount.total = js ''1.00'' \<rparr> \<and>
        parse_fixed2 (total (transaction.amount t)) = Some 100 \<and>
        description t = js ''This is your fine. Please pay it :3'')"
  by (simp add: createPaymentJson_def parse_fixed2_def digit_value_def js_Nil js_Cons)

text \<open>
  C9 (createPaymentJson is deterministic, with no hidden randomness or timestamps) has
  no theorem here. Every function of this development is a function of its arguments,
  so "equal arguments give equal results" holds of any definition whatever and says
  nothing of the source. That createPaymentJson reads no clock, no random number and no
  variable besides its two parameters is a fact of its text (app.js 58-85, a single
  object literal); the structure it returns is the subject of C8.
\<close>

subsection \<open>The host of the return URL\<close>

text \<open>
  C10. Whenever createReturnUrl returns a URL, under a configuration with a truthy port
  (every loaded configuration has one), the URL is \<open>http://localhost:\<close>, the text of
  the configured PORT, \<open>/approvalComplete?\<close> and the query: the URL object has
  protocol http, hostname localhost, pathname approvalComplete and the configured PORT.
  The configured HOST is never read: changing it changes nothing of what createReturnUrl
  does.
\<close>

theorem createReturnUrl_localhost:
  assumes "snd (createReturnUrl cfg a) = Inr url" and "port_truthy (PORT cfg)"
  shows "(\<exists>q. url = js ''http://localhost:'' @ port_text (PORT cfg) @ js ''/approvalComplete?'' @ q) \<and>
         protocol (return_urlObject cfg queryObject) = js ''http'' \<and>
         hostname (return_urlObject cfg queryObject) = js ''localhost'' \<and>
         port (return_urlObject cfg queryObject) = PORT cfg \<and>
         pathname (return_urlObject cfg queryObject) = js ''approvalComplete'' \<and>
         createReturnUrl (cfg\<lparr>HOST := h\<rparr>) a = createReturnUrl cfg a"
proof -
  from assms(1) obtain qo where qo: "return_queryObject a = Inr qo"
    and fmt: "url_format (return_urlObject cfg qo) = Inr url"
    by (auto simp: createReturnUrl_def split: sum.splits)
  from qo obtain p q where pq: "qo = p # q"
    by (auto simp: return_queryObject_def split: sum.splits)
  from fmt obtain qs where qs: "querystring_stringify qo = Inr qs"
    by (auto simp: url_format_def return_urlObject_def split: sum.splits)
  have "qs \<noteq> []" using qs unfolding pq by (rule stringify_nonempty)
  from url_format_return [OF qs this stringify_chars [OF qs] assms(2)] fmt
  have "url = (js ''http://localhost:'' @ port_text (PORT cfg) @ js ''/approvalComplete'') @ 0x3F # qs"
    by simp
  then have "url = js ''http://localhost:'' @ port_text (PORT cfg) @ js ''/approvalComplete?'' @ qs"
    by (simp add: js_def)
  then show ?thesis
    by (auto simp: return_urlObject_def createReturnUrl_host)
qed

theorem createReturnUrl_localhost_witness:
  "snd (createReturnUrl default_configuration scenario_address) = Inr scenario_return_url \<and>
   port_truthy (PORT default_configuration) \<and>
   (\<exists>q. scenario_return_url =
      js ''http://localhost:'' @ port_text (PORT default_configuration) @ js ''/approvalComplete?'' @ q) \<and>
   protocol (return_urlObject default_configuration []) = js ''http'' \<and>
   hostname (return_urlObject default_configuration []) = js ''localhost'' \<and>
   port (return_urlObject default_configuration []) = PORT default_configuration \<and>
   pathname (return_urlObject default_configuration []) = js ''approvalComplete'' \<and>
   createReturnUrl (default_configuration\<lparr>HOST := js ''example.org''\<rparr>) scenario_address =
     createReturnUrl default_configuration scenario_address"
proof -
  have p: "port_truthy (PORT default_configuration)"
    by (simp add: default_port port_truthy_def)
  from scenario_url p createReturnUrl_localhost [OF scenario_url p, of "[]" "js ''example.org''"]
  show ?thesis by blast
qed

end
